theory Spec2Isabelle
  imports Complex_Main
begin

section \<open>Values, errors and the numpy primitives used by the metrics\<close>

text \<open>
  The metrics of \<^verbatim>\<open>simpleMetrics.py\<close> and \<^verbatim>\<open>tgaps.py\<close> reduce one column of a
  data slice to a scalar or to a histogram. A column is modelled as a list of reals, one
  entry per row of the slice; floating-point numbers are idealised as reals, and the one
  non-number a metric can compute from finite data, not-a-number, is a value of its own.
  Exceptions are values of type \<open>error\<close>, returned on the left of a sum.
\<close>

datatype error = ValueError | ZeroDivisionError | IndexError

datatype npfloat = Fin real | NaN

datatype val = Scalar npfloat | Hist "nat list"

fun fadd :: "npfloat \<Rightarrow> npfloat \<Rightarrow> npfloat" where
  "fadd (Fin a) (Fin b) = Fin (a + b)"
| "fadd _ _ = NaN"

fun fmul :: "npfloat \<Rightarrow> npfloat \<Rightarrow> npfloat" where
  "fmul (Fin a) (Fin b) = Fin (a * b)"
| "fmul _ _ = NaN"

text \<open>Comparisons with not-a-number are false.\<close>

fun fgt :: "npfloat \<Rightarrow> npfloat \<Rightarrow> bool" where
  "fgt (Fin a) (Fin b) = (a > b)"
| "fgt _ _ = False"

fun flt :: "npfloat \<Rightarrow> npfloat \<Rightarrow> bool" where
  "flt (Fin a) (Fin b) = (a < b)"
| "flt _ _ = False"

definition twopi :: real where
  "twopi = 2.0 * pi"

text \<open>\<^verbatim>\<open>np.mean\<close>: the arithmetic mean; not-a-number on an empty array.\<close>

definition np_mean :: "real list \<Rightarrow> npfloat" where
  "np_mean xs = (if xs = [] then NaN else Fin (sum_list xs / real (length xs)))"

text \<open>\<^verbatim>\<open>np.std\<close>: the population standard deviation; not-a-number on an empty array.\<close>

definition np_std :: "real list \<Rightarrow> npfloat" where
  "np_std xs =
     (if xs = [] then NaN
      else let m = sum_list xs / real (length xs)
           in Fin (sqrt (sum_list (map (\<lambda>x. (x - m)\<^sup>2) xs) / real (length xs))))"

text \<open>\<^verbatim>\<open>np.max\<close> and \<^verbatim>\<open>np.min\<close> raise ValueError on an empty array.\<close>

fun np_max :: "real list \<Rightarrow> error + real" where
  "np_max [] = Inl ValueError"
| "np_max (x # xs) = Inr (fold max xs x)"

fun np_min :: "real list \<Rightarrow> error + real" where
  "np_min [] = Inl ValueError"
| "np_min (x # xs) = Inr (fold min xs x)"

text \<open>
  \<^verbatim>\<open>np.where(cond)[0]\<close>: the indices at which the condition holds, ascending; and
  indexing an array with an array of indices.
\<close>

definition np_where :: "('a \<Rightarrow> bool) \<Rightarrow> 'a list \<Rightarrow> nat list" where
  "np_where P xs = filter (\<lambda>i. P (xs ! i)) [0..<length xs]"

definition take_idx :: "'a list \<Rightarrow> nat list \<Rightarrow> 'a list" where
  "take_idx xs idx = map (\<lambda>i. xs ! i) idx"

text \<open>\<^verbatim>\<open>np.sort\<close>, \<^verbatim>\<open>np.argsort\<close>, \<^verbatim>\<open>np.unique\<close> (sorted, without repetitions), \<^verbatim>\<open>np.diff\<close>.\<close>

definition np_sort :: "real list \<Rightarrow> real list" where
  "np_sort xs = sort xs"

definition np_argsort :: "real list \<Rightarrow> nat list" where
  "np_argsort xs = map snd (sort_key fst (zip xs [0..<length xs]))"

definition np_unique :: "real list \<Rightarrow> real list" where
  "np_unique xs = remdups_adj (sort xs)"

fun np_diff :: "real list \<Rightarrow> real list" where
  "np_diff (x # y # zs) = (y - x) # np_diff (y # zs)"
| "np_diff _ = []"

text \<open>
  \<^verbatim>\<open>np.roll(a, i)\<close>: the array shifted circularly by \<open>i\<close> places to the right, so that
  the element at position \<open>j\<close> moves to position \<open>(j + i) mod n\<close>.
\<close>

definition np_roll :: "'a list \<Rightarrow> nat \<Rightarrow> 'a list" where
  "np_roll xs i =
     (let n = length xs
      in if n = 0 then [] else drop (n - i mod n) xs @ take (n - i mod n) xs)"

text \<open>\<^verbatim>\<open>np.concatenate\<close> raises ValueError on an empty list of arrays.\<close>

definition np_concatenate :: "'a list list \<Rightarrow> error + 'a list" where
  "np_concatenate xss = (if xss = [] then Inl ValueError else Inr (concat xss))"

text \<open>
  \<^verbatim>\<open>np.histogram(a, bins)\<close> with an array of bin edges: the edges must not decrease
  (ValueError otherwise); bin \<open>k\<close> counts the values in \<open>[bins[k], bins[k+1])\<close>, and the
  last bin also takes the values equal to the last edge.
\<close>

definition in_bin :: "real list \<Rightarrow> nat \<Rightarrow> real \<Rightarrow> bool" where
  "in_bin edges k d =
     (edges ! k \<le> d \<and>
      (d < edges ! (k + 1) \<or> (k + 2 = length edges \<and> d = edges ! (k + 1))))"

definition np_histogram :: "real list \<Rightarrow> real list \<Rightarrow> error + nat list" where
  "np_histogram a edges =
     (if \<not> sorted edges then Inl ValueError
      else Inr (map (\<lambda>k. length (filter (in_bin edges k) a)) [0..<length edges - 1]))"

text \<open>
  \<^verbatim>\<open>np.percentile(a, q)\<close> with the default linear interpolation between the two nearest
  ranks; it raises for \<open>q\<close> outside \<open>[0, 100]\<close> and on an empty array.
\<close>

definition percentile_linear :: "real list \<Rightarrow> real \<Rightarrow> real" where
  "percentile_linear a q =
     (let s = sort a;
          pos = q / 100 * real (length a - 1);
          lo = nat \<lfloor>pos\<rfloor>;
          hi = min (lo + 1) (length a - 1)
      in s ! lo + (pos - real lo) * (s ! hi - s ! lo))"

definition np_percentile :: "real list \<Rightarrow> real \<Rightarrow> error + real" where
  "np_percentile a q =
     (if q < 0 \<or> 100 < q then Inl ValueError
      else if a = [] then Inl IndexError
      else Inr (percentile_linear a q))"

text \<open>Python's \<^verbatim>\<open>%\<close> on floats: the remainder has the sign of the divisor.\<close>

definition py_mod :: "real \<Rightarrow> real \<Rightarrow> real" where
  "py_mod x y = x - y * of_int \<lfloor>x / y\<rfloor>"

text \<open>
  \<^verbatim>\<open>np.arctan2(y, x)\<close>: the angle of the point \<open>(x, y)\<close> in \<open>(-pi, pi]\<close>, and 0 at the
  origin.
\<close>

definition np_arctan2 :: "real \<Rightarrow> real \<Rightarrow> real" where
  "np_arctan2 y x =
     (if 0 < x then arctan (y / x)
      else if x < 0 \<and> 0 \<le> y then arctan (y / x) + pi
      else if x < 0 then arctan (y / x) - pi
      else if 0 < y then pi / 2
      else if y < 0 then - (pi / 2)
      else 0)"

section \<open>The metric base class\<close>

datatype dtype = DFloat | DInt | DObject

text \<open>
  Modelled from the spec: the class \<^verbatim>\<open>BaseMetric\<close> of \<^verbatim>\<open>baseMetric.py\<close> is imported
  by both metric modules and is not part of the sources. The spec gives it a bad-value
  sentinel that defaults to -666 and an output kind that defaults to floating point.
  The column name only selects the column of the slice and is left out: \<open>run\<close> receives
  the selected column.
\<close>

record BaseMetric =
  badval :: real
  metricDtype :: dtype

definition default_badval :: real where
  "default_badval = - 666"

definition BaseMetric_init :: "real \<Rightarrow> BaseMetric" where
  "BaseMetric_init bv = \<lparr>badval = bv, metricDtype = DFloat\<rparr>"

section \<open>Simple scalar metrics\<close>

definition MaxMetric_run :: "BaseMetric \<Rightarrow> real list \<Rightarrow> error + val" where
  "MaxMetric_run self col =
     (case np_max col of Inl e \<Rightarrow> Inl e | Inr m \<Rightarrow> Inr (Scalar (Fin m)))"

definition MeanMetric_run :: "BaseMetric \<Rightarrow> real list \<Rightarrow> error + val" where
  "MeanMetric_run self col = Inr (Scalar (np_mean col))"

definition CountMetric_run :: "BaseMetric \<Rightarrow> real list \<Rightarrow> error + val" where
  "CountMetric_run self col = Inr (Scalar (Fin (real (length col))))"

record CountSubsetMetric = BaseMetric +
  subset :: "real option"

text \<open>
  The constructor passes the caller's keyword arguments to the base class and then
  overwrites the output kind and the sentinel.
\<close>

definition CountSubsetMetric_init :: "real \<Rightarrow> real option \<Rightarrow> CountSubsetMetric" where
  "CountSubsetMetric_init bv sub =
     BaseMetric.extend (BaseMetric_init bv\<lparr>metricDtype := DInt, badval := 0\<rparr>)
       (CountSubsetMetric.fields sub)"

definition CountSubsetMetric_run :: "CountSubsetMetric \<Rightarrow> real list \<Rightarrow> error + val" where
  "CountSubsetMetric_run self col =
     (let count = length (np_where (\<lambda>x. Some x = subset self) col)
      in Inr (Scalar (Fin (real count))))"

definition BinaryMetric_run :: "BaseMetric \<Rightarrow> real list \<Rightarrow> error + val" where
  "BinaryMetric_run self col =
     (if length col > 0 then Inr (Scalar (Fin 1)) else Inr (Scalar (Fin (badval self))))"

text \<open>
  \<^verbatim>\<open>FracAboveMetric\<close> and \<^verbatim>\<open>FracBelowMetric\<close> have the same configuration, a cutoff
  and a scale, so one record serves both.
\<close>

record FracMetric = BaseMetric +
  cutoff :: real
  scale :: real

text \<open>
  Both sizes are Python numbers, so the quotient is Python's float division, which raises
  ZeroDivisionError for a zero denominator.
\<close>

definition FracMetric_init :: "real \<Rightarrow> real \<Rightarrow> real \<Rightarrow> FracMetric" where
  "FracMetric_init bv c sc =
     BaseMetric.extend (BaseMetric_init bv) (FracMetric.fields c sc)"

definition py_truediv :: "real \<Rightarrow> real \<Rightarrow> error + real" where
  "py_truediv a b = (if b = 0 then Inl ZeroDivisionError else Inr (a / b))"

definition FracAboveMetric_run :: "FracMetric \<Rightarrow> real list \<Rightarrow> error + val" where
  "FracAboveMetric_run self col =
     (let good = np_where (\<lambda>x. x \<ge> cutoff self) col
      in case py_truediv (real (length good)) (real (length col)) of
           Inl e \<Rightarrow> Inl e
         | Inr fracAbove \<Rightarrow> Inr (Scalar (Fin (fracAbove * scale self))))"

definition FracBelowMetric_run :: "FracMetric \<Rightarrow> real list \<Rightarrow> error + val" where
  "FracBelowMetric_run self col =
     (let good = np_where (\<lambda>x. x \<le> cutoff self) col
      in case py_truediv (real (length good)) (real (length col)) of
           Inl e \<Rightarrow> Inl e
         | Inr fracBelow \<Rightarrow> Inr (Scalar (Fin (fracBelow * scale self))))"

definition RobustRmsMetric_run :: "BaseMetric \<Rightarrow> real list \<Rightarrow> error + val" where
  "RobustRmsMetric_run self col =
     (case np_percentile col 75 of
        Inl e \<Rightarrow> Inl e
      | Inr p75 \<Rightarrow>
          (case np_percentile col 25 of
             Inl e \<Rightarrow> Inl e
           | Inr p25 \<Rightarrow>
               (let iqr = p75 - p25; rms = iqr / 1.349
                in Inr (Scalar (Fin rms)))))"

record NoutliersNsigmaMetric = BaseMetric +
  nSigma :: real

definition NoutliersNsigmaMetric_init :: "real \<Rightarrow> real \<Rightarrow> NoutliersNsigmaMetric" where
  "NoutliersNsigmaMetric_init bv ns =
     BaseMetric.extend (BaseMetric_init bv\<lparr>metricDtype := DInt\<rparr>)
       (NoutliersNsigmaMetric.fields ns)"

definition NoutliersNsigmaMetric_run :: "NoutliersNsigmaMetric \<Rightarrow> real list \<Rightarrow> error + val" where
  "NoutliersNsigmaMetric_run self col =
     (let med = np_mean col;
          std = np_std col;
          boundary = fadd med (fmul (Fin (nSigma self)) std);
          outsiders = (if nSigma self \<ge> 0
                       then np_where (\<lambda>x. fgt (Fin x) boundary) col
                       else np_where (\<lambda>x. flt (Fin x) boundary) col)
      in Inr (Scalar (Fin (real (length (take_idx col outsiders))))))"

section \<open>Angular metrics\<close>

text \<open>
  \<^verbatim>\<open>_rotateAngles\<close>. Reading the last element of the sorted angles raises IndexError on
  an empty array. \<^verbatim>\<open>maxdiff\<close> is the array of the positions of the maximal gap, cut down
  to its last entry when there are several; the comparison with \<^verbatim>\<open>len(angles)-1\<close> reads
  its only entry.
\<close>

definition rotateAngles :: "real list \<Rightarrow> error + real \<times> real list" where
  "rotateAngles angles =
     (let angleidx = np_argsort angles;
          sorted_angles = take_idx angles angleidx;
          diffangles = np_diff sorted_angles
      in if sorted_angles = [] then Inl IndexError
         else
           let start_to_end = twopi - last sorted_angles + hd sorted_angles
           in if start_to_end < 0 then Inl ValueError
              else
                let diffangles = diffangles @ [start_to_end]
                in (case np_max diffangles of
                      Inl e \<Rightarrow> Inl e
                    | Inr mx \<Rightarrow>
                        let maxdiff = np_where (\<lambda>d. d = mx) diffangles;
                            maxdiff = (if length maxdiff > 1 then [last maxdiff] else maxdiff)
                        in (case maxdiff of
                              [] \<Rightarrow> Inl IndexError
                            | k # _ \<Rightarrow>
                                let rotation =
                                      (if k = length angles - 1 then sorted_angles ! 0
                                       else sorted_angles ! (k + 1))
                                in Inr (rotation,
                                        map (\<lambda>a. py_mod (a - rotation) twopi) angles))))"

definition MeanAngleMetric_run :: "BaseMetric \<Rightarrow> real list \<Rightarrow> error + val" where
  "MeanAngleMetric_run self col =
     (let x = map cos col;
          y = map sin col
      in case (np_mean x, np_mean y) of
           (Fin meanx, Fin meany) \<Rightarrow>
             (let angle = np_arctan2 meany meanx;
                  radius = sqrt (meanx\<^sup>2 + meany\<^sup>2);
                  mean = py_mod angle twopi
              in Inr (Scalar (Fin (if radius < 0.1 then pi else mean))))
         | _ \<Rightarrow> Inr (Scalar NaN))"

definition RmsAngleMetric_run :: "BaseMetric \<Rightarrow> real list \<Rightarrow> error + val" where
  "RmsAngleMetric_run self col =
     (case rotateAngles col of
        Inl e \<Rightarrow> Inl e
      | Inr (rotation, angles) \<Rightarrow> Inr (Scalar (np_std angles)))"

definition FullRangeAngleMetric_run :: "BaseMetric \<Rightarrow> real list \<Rightarrow> error + val" where
  "FullRangeAngleMetric_run self col =
     (case rotateAngles col of
        Inl e \<Rightarrow> Inl e
      | Inr (rotation, angles) \<Rightarrow>
          (case np_max angles of
             Inl e \<Rightarrow> Inl e
           | Inr mx \<Rightarrow>
               (case np_min angles of
                  Inl e \<Rightarrow> Inl e
                | Inr mn \<Rightarrow> Inr (Scalar (Fin (mx - mn))))))"

section \<open>Gap histograms\<close>

text \<open>
  \<^verbatim>\<open>TgapsMetric\<close> and \<^verbatim>\<open>NightgapsMetric\<close> have the same configuration: the bin edges
  and the mode. The result is the sentinel or the array of bin counts.
\<close>

record GapsMetric = BaseMetric +
  bins :: "real list"
  allGaps :: bool

definition Tgaps_default_bins :: "real list" where
  "Tgaps_default_bins = map (\<lambda>k. 0.5 + 0.5 * real k) [0..<119]"

definition Nightgaps_default_bins :: "real list" where
  "Nightgaps_default_bins = map real [0..<10]"

definition GapsMetric_init :: "real \<Rightarrow> bool \<Rightarrow> real list \<Rightarrow> GapsMetric" where
  "GapsMetric_init bv ag bs =
     BaseMetric.extend (BaseMetric_init bv\<lparr>metricDtype := DObject\<rparr>)
       (GapsMetric.fields bs ag)"

text \<open>
  The loop of the all-gaps mode: for each offset \<open>i\<close> from 1 to the size minus one it
  appends the differences against the array rolled by \<open>i\<close>, without their first \<open>i\<close>
  entries.
\<close>

definition allDiffs_loop :: "real list \<Rightarrow> real list list" where
  "allDiffs_loop tms =
     fold (\<lambda>i allDiffs. allDiffs @ [drop i (map2 (-) tms (np_roll tms i))])
       [1..<length tms] []"

text \<open>
  The gaps as the specification words them: the first differences of the sorted series,
  and, for an offset \<open>i\<close>, the differences of the series against itself shifted by \<open>i\<close>
  positions, concatenated over the offsets from 1 to the size minus one.
\<close>

definition spec_consecutive_gaps :: "real list \<Rightarrow> real list" where
  "spec_consecutive_gaps s = map (\<lambda>j. s ! (j + 1) - s ! j) [0..<length s - 1]"

definition spec_shifted_diffs :: "real list \<Rightarrow> nat \<Rightarrow> real list" where
  "spec_shifted_diffs s i = map (\<lambda>j. s ! j - s ! (j - i)) [i..<length s]"

definition spec_all_gaps :: "real list \<Rightarrow> real list" where
  "spec_all_gaps s = concat (map (spec_shifted_diffs s) [1..<length s])"

text \<open>The histogram of a list of gaps as a metric value.\<close>

definition binned :: "real list \<Rightarrow> real list \<Rightarrow> error + val" where
  "binned dts edges =
     (case np_histogram dts edges of
        Inl e \<Rightarrow> Inl e
      | Inr result \<Rightarrow> Inr (Hist result))"

definition TgapsMetric_body :: "GapsMetric \<Rightarrow> real list \<Rightarrow> error + val" where
  "TgapsMetric_body self col =
     (let tms = np_sort col
      in case (if allGaps self then np_concatenate (allDiffs_loop tms)
               else Inr (np_diff tms)) of
           Inl e \<Rightarrow> Inl e
         | Inr dts \<Rightarrow>
             (case np_histogram dts (bins self) of
                Inl e \<Rightarrow> Inl e
              | Inr result \<Rightarrow> Inr (Hist result)))"

definition TgapsMetric_run :: "GapsMetric \<Rightarrow> real list \<Rightarrow> error + val" where
  "TgapsMetric_run self col =
     (if length col < 2 then Inr (Scalar (Fin (badval self)))
      else TgapsMetric_body self col)"

definition NightgapsMetric_run :: "GapsMetric \<Rightarrow> real list \<Rightarrow> error + val" where
  "NightgapsMetric_run self col =
     (if length col < 2 then Inr (Scalar (Fin (badval self)))
      else
        let nights = np_sort (np_unique col)
        in case (if allGaps self
                 then np_concatenate
                        (fold (\<lambda>i allDiffs.
                                 allDiffs @ [drop i (map2 (-) nights (np_roll nights i))])
                           [1..<length nights] [])
                 else Inr (np_diff nights)) of
             Inl e \<Rightarrow> Inl e
           | Inr dnights \<Rightarrow>
               (case np_histogram dnights (bins self) of
                  Inl e \<Rightarrow> Inl e
                | Inr result \<Rightarrow> Inr (Hist result)))"

section \<open>Notions used to state the properties of the angle rotation\<close>

text \<open>
  The gap sequence of a sorted list of angles: the consecutive gaps followed by the
  wraparound gap from the last angle back to the first. \<open>last_argmax\<close> is the position of
  the maximum of a list, the last one when the maximum occurs several times.
  \<open>wrap_gap_negative\<close> says that the wraparound gap, \<open>2 pi\<close> minus the largest angle plus
  the smallest angle, is negative; an empty input has no such gap.
\<close>

definition gap_sequence :: "real list \<Rightarrow> real list" where
  "gap_sequence s = np_diff s @ [twopi - last s + hd s]"

definition last_argmax :: "real list \<Rightarrow> nat" where
  "last_argmax ds = last (filter (\<lambda>i. ds ! i = Max (set ds)) [0..<length ds])"

definition wrap_gap_negative :: "real list \<Rightarrow> bool" where
  "wrap_gap_negative angles =
     (angles \<noteq> [] \<and> twopi - Max (set angles) + Min (set angles) < 0)"

section \<open>Helper lemmas on the primitives\<close>

lemma take_idx_np_where: "take_idx xs (np_where P xs) = filter P xs"
proof -
  have "filter P xs = filter P (map ((!) xs) [0..<length xs])"
    by (simp add: map_nth)
  also have "\<dots> = map ((!) xs) (filter (P \<circ> (!) xs) [0..<length xs])"
    by (simp only: filter_map)
  finally show ?thesis
    by (simp add: take_idx_def np_where_def comp_def)
qed

lemma np_std_nonneg: "np_std xs = Fin s \<Longrightarrow> 0 \<le> s"
  by (auto simp: np_std_def Let_def split: if_splits
        intro!: divide_nonneg_nonneg sum_list_nonneg)

section \<open>Outlier counts\<close>

text \<open>
  Claim C3. For every non-empty slice, \<^verbatim>\<open>NoutliersNsigmaMetric.run\<close> takes as boundary
  the mean of the column plus \<open>nSigma\<close> times its population standard deviation, and
  returns the number of values strictly above the boundary when \<open>nSigma\<close> is not
  negative and the number of values strictly below it when \<open>nSigma\<close> is negative.
\<close>

theorem NoutliersNsigma_mean_boundary:
  assumes "col \<noteq> []"
  shows "let mean = sum_list col / real (length col);
             std = sqrt (sum_list (map (\<lambda>x. (x - mean)\<^sup>2) col) / real (length col));
             boundary = mean + nSigma self * std
         in NoutliersNsigmaMetric_run self col =
              Inr (Scalar (Fin (real
                (if nSigma self \<ge> 0 then length (filter (\<lambda>x. x > boundary) col)
                 else length (filter (\<lambda>x. x < boundary) col)))))"
  using assms
  by (simp add: NoutliersNsigmaMetric_run_def Let_def np_mean_def np_std_def take_idx_np_where)

theorem NoutliersNsigma_mean_boundary_witness:
  "[1, 3] \<noteq> ([] :: real list) \<and>
   NoutliersNsigmaMetric_run \<lparr>badval = - 666, metricDtype = DInt, nSigma = 1 / 2\<rparr> [1, 3]
     = Inr (Scalar (Fin 1))"
  using NoutliersNsigma_mean_boundary
          [of "[1, 3]" "\<lparr>badval = - 666, metricDtype = DInt, nSigma = 1 / 2\<rparr>"]
  by (simp add: Let_def power2_eq_square)

text \<open>
  Claim C10. When \<open>nSigma\<close> is exactly 0 the run takes the non-negative branch: the
  boundary is the mean of the column and the result is the number of values strictly
  greater than the mean. For either sign of \<open>nSigma\<close> a value equal to the mean is never
  counted: leaving such values out of the count does not change the result.
\<close>

theorem NoutliersNsigma_zero_sigma:
  "(nSigma self = 0 \<longrightarrow>
      NoutliersNsigmaMetric_run self col =
        Inr (Scalar (Fin (real (length (filter (\<lambda>x. fgt (Fin x) (np_mean col)) col)))))) \<and>
   (let boundary = fadd (np_mean col) (fmul (Fin (nSigma self)) (np_std col))
    in NoutliersNsigmaMetric_run self col =
         Inr (Scalar (Fin (real (length (filter
           (\<lambda>x. Fin x \<noteq> np_mean col \<and>
                (if nSigma self \<ge> 0 then fgt (Fin x) boundary else flt (Fin x) boundary))
           col))))))"
proof (cases "col = []")
  case True
  then show ?thesis
    by (simp add: NoutliersNsigmaMetric_run_def Let_def np_mean_def np_std_def take_idx_np_where)
next
  case False
  obtain s where s: "np_std col = Fin s" "0 \<le> s"
    using False np_std_nonneg[of col] by (auto simp: np_std_def Let_def)
  obtain m where m: "np_mean col = Fin m"
    using False by (simp add: np_mean_def)
  have pos: "0 \<le> nSigma self \<Longrightarrow> \<not> m > m + nSigma self * s"
    using s(2) by (simp add: not_less)
  have neg: "\<not> 0 \<le> nSigma self \<Longrightarrow> \<not> m < m + nSigma self * s"
    using s(2) by (simp add: not_less mult_nonpos_nonneg)
  have eq: "filter (\<lambda>x. x \<noteq> m \<and> (if nSigma self \<ge> 0 then x > m + nSigma self * s
                                     else x < m + nSigma self * s)) col
          = filter (\<lambda>x. if nSigma self \<ge> 0 then x > m + nSigma self * s
                                     else x < m + nSigma self * s) col"
    by (rule filter_cong) (use pos neg in auto)
  show ?thesis
    using s(1) m eq
    by (auto simp: NoutliersNsigmaMetric_run_def Let_def take_idx_np_where)
qed

theorem NoutliersNsigma_zero_sigma_witness:
  "nSigma \<lparr>badval = - 666, metricDtype = DInt, nSigma = 0\<rparr> = 0 \<and>
   NoutliersNsigmaMetric_run \<lparr>badval = - 666, metricDtype = DInt, nSigma = 0\<rparr> [1, 2, 3, 6]
     = Inr (Scalar (Fin 1))"
  using NoutliersNsigma_zero_sigma
          [of "\<lparr>badval = - 666, metricDtype = DInt, nSigma = 0\<rparr>" "[1, 2, 3, 6]"]
  by (simp add: np_mean_def)

section \<open>Empty slices and the bad-value sentinel\<close>

text \<open>
  Claim C1 says that every metric returns its sentinel on a slice with zero rows and never
  raises. \<^verbatim>\<open>MaxMetric.run\<close> has no guard for the empty slice: the maximum of an empty
  array raises ValueError.
\<close>

theorem empty_slice_MaxMetric_raises:
  "MaxMetric_run (BaseMetric_init default_badval) [] = Inl ValueError \<and>
   MaxMetric_run (BaseMetric_init default_badval) []
     \<noteq> Inr (Scalar (Fin (badval (BaseMetric_init default_badval))))"
  by (simp add: MaxMetric_run_def)

text \<open>
  Claim C1, amended. On a slice with zero rows \<^verbatim>\<open>BinaryMetric.run\<close>,
  \<^verbatim>\<open>TgapsMetric.run\<close> and \<^verbatim>\<open>NightgapsMetric.run\<close> return the metric's declared
  sentinel and do not raise. The simple metrics have no guard for the empty slice:
  \<^verbatim>\<open>MaxMetric.run\<close> raises ValueError, \<^verbatim>\<open>MeanMetric.run\<close> returns not-a-number and
  \<^verbatim>\<open>FracAboveMetric.run\<close> raises ZeroDivisionError.
\<close>

theorem empty_slice_results:
  "BinaryMetric_run self [] = Inr (Scalar (Fin (badval self))) \<and>
   TgapsMetric_run g [] = Inr (Scalar (Fin (badval g))) \<and>
   NightgapsMetric_run g [] = Inr (Scalar (Fin (badval g))) \<and>
   MaxMetric_run self [] = Inl ValueError \<and>
   MeanMetric_run self [] = Inr (Scalar NaN) \<and>
   FracAboveMetric_run f [] = Inl ZeroDivisionError"
  by (simp add: BinaryMetric_run_def TgapsMetric_run_def NightgapsMetric_run_def
        MaxMetric_run_def MeanMetric_run_def np_mean_def FracAboveMetric_run_def
        py_truediv_def np_where_def)

text \<open>
  Claim C2 says that the sentinel of every metric instance differs from a computed zero,
  in particular for \<^verbatim>\<open>CountSubsetMetric\<close>. The constructor of \<^verbatim>\<open>CountSubsetMetric\<close> sets
  the sentinel to 0, so on a slice without a matching row the computed count is the
  sentinel.
\<close>

theorem CountSubset_sentinel_is_zero_count:
  "CountSubsetMetric_run (CountSubsetMetric_init default_badval (Some 1)) [2, 3]
     = Inr (Scalar (Fin (badval (CountSubsetMetric_init default_badval (Some 1)))))"
  by (simp add: CountSubsetMetric_run_def CountSubsetMetric_init_def np_where_def
        BaseMetric.extend_def CountSubsetMetric.fields_def BaseMetric_init_def)

text \<open>
  Claim C2, amended. A metric instance built with the default sentinel by the base class,
  or by the constructors of the fraction, outlier and gap metrics, has the sentinel -666,
  which differs from a computed zero. \<^verbatim>\<open>CountSubsetMetric\<close> overrides its sentinel to 0
  whatever the caller passes, so that a slice with zero matching rows yields a computed
  count equal to its sentinel.
\<close>

theorem sentinel_distinct_from_zero:
  "badval (BaseMetric_init default_badval) \<noteq> 0 \<and>
   badval (FracMetric_init default_badval c sc) \<noteq> 0 \<and>
   badval (NoutliersNsigmaMetric_init default_badval ns) \<noteq> 0 \<and>
   badval (GapsMetric_init default_badval ag bs) \<noteq> 0 \<and>
   badval (CountSubsetMetric_init bv sub) = 0 \<and>
   (filter (\<lambda>x. Some x = sub) col = [] \<longrightarrow>
      CountSubsetMetric_run (CountSubsetMetric_init bv sub) col
        = Inr (Scalar (Fin (badval (CountSubsetMetric_init bv sub)))))"
proof -
  have "length (np_where (\<lambda>x. Some x = sub) col) = length (filter (\<lambda>x. Some x = sub) col)"
    using take_idx_np_where[of col "\<lambda>x. Some x = sub"]
    by (metis length_map take_idx_def)
  then show ?thesis
    by (simp add: CountSubsetMetric_run_def CountSubsetMetric_init_def
        BaseMetric.extend_def CountSubsetMetric.fields_def BaseMetric_init_def
        FracMetric_init_def FracMetric.fields_def NoutliersNsigmaMetric_init_def
        NoutliersNsigmaMetric.fields_def GapsMetric_init_def GapsMetric.fields_def
        default_badval_def)
qed

theorem sentinel_distinct_from_zero_witness:
  "filter (\<lambda>x. Some x = Some 1) [2, 3 :: real] = [] \<and>
   CountSubsetMetric_run (CountSubsetMetric_init (- 666) (Some 1)) [2, 3]
     = Inr (Scalar (Fin 0))"
  using sentinel_distinct_from_zero [of 0 0 0 False "[]" "- 666" "Some 1" "[2, 3]"]
  by simp

section \<open>Robust RMS\<close>

text \<open>
  Claim C9. For every slice with at least 4 distinct values in the column,
  \<^verbatim>\<open>RobustRmsMetric.run\<close> returns the 75th percentile minus the 25th percentile of the
  column, divided by 1.349; both percentiles are defined and are the linearly interpolated
  ones.
\<close>

theorem RobustRms_iqr:
  assumes "card (set col) \<ge> 4"
  shows "RobustRmsMetric_run self col =
           Inr (Scalar (Fin ((percentile_linear col 75 - percentile_linear col 25) / 1.349))) \<and>
         np_percentile col 75 = Inr (percentile_linear col 75) \<and>
         np_percentile col 25 = Inr (percentile_linear col 25)"
proof -
  have "col \<noteq> []" using assms by auto
  then show ?thesis
    by (simp add: RobustRmsMetric_run_def np_percentile_def Let_def)
qed

theorem RobustRms_iqr_witness:
  "card (set [1, 2, 3, 4 :: real]) \<ge> 4 \<and>
   RobustRmsMetric_run (BaseMetric_init default_badval) [1, 2, 3, 4]
     = Inr (Scalar (Fin (1500 / 1349)))"
  using RobustRms_iqr [of "[1, 2, 3, 4]" "BaseMetric_init default_badval"]
  by (simp add: percentile_linear_def Let_def)

section \<open>Gap histograms\<close>

lemma sort_np_unique: "np_sort (np_unique col) = np_unique col"
  unfolding np_sort_def np_unique_def
  by (simp add: sorted_sort_id sorted_remdups_adj)

lemma fold_append_map: "fold (\<lambda>i acc. acc @ [f i]) is acc = acc @ map f is"
  by (induction "is" arbitrary: acc) simp_all

lemma allDiffs_loop_map:
  "allDiffs_loop s = map (\<lambda>i. drop i (map2 (-) s (np_roll s i))) [1..<length s]"
  by (simp add: allDiffs_loop_def fold_append_map)

lemma np_roll_nth:
  assumes "i < length s" "i \<le> j" "j < length s"
  shows "np_roll s i ! j = s ! (j - i)"
  using assms by (auto simp: np_roll_def Let_def nth_append)

lemma length_np_roll: "length (np_roll s i) = length s"
  by (simp add: np_roll_def Let_def)

lemma shifted_diffs_eq:
  assumes "i < length s"
  shows "drop i (map2 (-) s (np_roll s i)) = spec_shifted_diffs s i"
proof (rule nth_equalityI)
  show "length (drop i (map2 (-) s (np_roll s i))) = length (spec_shifted_diffs s i)"
    by (simp add: spec_shifted_diffs_def length_np_roll)
next
  fix k assume "k < length (drop i (map2 (-) s (np_roll s i)))"
  then have k: "i + k < length s" by (simp add: length_np_roll)
  then show "drop i (map2 (-) s (np_roll s i)) ! k = spec_shifted_diffs s i ! k"
    using assms by (simp add: spec_shifted_diffs_def length_np_roll np_roll_nth)
qed

lemma length_np_diff: "length (np_diff xs) = length xs - 1"
  by (induction xs rule: np_diff.induct) simp_all

lemma np_diff_nth: "j + 1 < length xs \<Longrightarrow> np_diff xs ! j = xs ! (j + 1) - xs ! j"
proof (induction xs arbitrary: j rule: np_diff.induct)
  case (1 x y zs)
  then show ?case by (cases j) simp_all
qed simp_all

lemma np_diff_spec: "np_diff s = spec_consecutive_gaps s"
  by (rule nth_equalityI) (simp_all add: length_np_diff spec_consecutive_gaps_def np_diff_nth)

lemma all_gaps_eq:
  assumes "2 \<le> length s"
  shows "np_concatenate (allDiffs_loop s) = Inr (spec_all_gaps s)"
proof -
  have ne: "s \<noteq> []" "Suc 0 < length s" using assms by auto
  have "map (\<lambda>i. drop i (map2 (-) s (np_roll s i))) [1..<length s]
        = map (spec_shifted_diffs s) [1..<length s]"
    by (rule map_cong) (simp_all add: shifted_diffs_eq)
  then have "concat (allDiffs_loop s) = spec_all_gaps s"
    by (simp only: allDiffs_loop_map spec_all_gaps_def)
  moreover have "allDiffs_loop s \<noteq> []"
    using ne by (simp add: allDiffs_loop_map)
  ultimately show ?thesis
    by (simp add: np_concatenate_def)
qed

lemma sorted_default_bins: "sorted Tgaps_default_bins"
  unfolding Tgaps_default_bins_def
  by (simp add: sorted_iff_nth_mono)

lemma length_default_bins: "length Tgaps_default_bins = 119"
  by (simp add: Tgaps_default_bins_def)

lemma default_bins_nth: "k < 119 \<Longrightarrow> Tgaps_default_bins ! k = 0.5 + 0.5 * real k"
  by (simp add: Tgaps_default_bins_def)

lemma in_default_bin:
  assumes "k < 118"
  shows "in_bin Tgaps_default_bins k d \<longleftrightarrow>
           (0.5 + 0.5 * real k \<le> d \<and> (d < 1 + 0.5 * real k \<or> (k = 117 \<and> d = 1 + 0.5 * real k)))"
proof -
  have "Tgaps_default_bins ! k = 0.5 + 0.5 * real k"
    and "Tgaps_default_bins ! (k + 1) = 1 + 0.5 * real k"
    using assms by (simp_all add: default_bins_nth field_simps)
  then show ?thesis
    using assms unfolding in_bin_def length_default_bins by auto
qed

lemma in_default_bin_nat:
  assumes "k < 118"
  shows "in_bin Tgaps_default_bins k (real n) \<longleftrightarrow> k + 1 = 2 * n"
  using assms unfolding in_default_bin[OF assms]
  by (auto simp: field_simps)

lemma Nightgaps_default_bins_eval:
  "Nightgaps_default_bins = [0, 1, 2, 3, 4, 5, 6, 7, 8, 9]"
  by (simp add: Nightgaps_default_bins_def upt_rec)

text \<open>
  Claim C6. For every slice with at least 2 rows, \<^verbatim>\<open>TgapsMetric.run\<close> in consecutive mode
  returns the histogram of the first differences of the sorted times, and in all-gaps mode
  the histogram of the differences of the sorted series against itself shifted by \<open>i\<close>
  positions, for every offset \<open>i\<close> from 1 to the size minus one, concatenated; both are
  binned into the configured bin edges. On the times 10, 20, 30, 40 the raw gaps the code
  computes are 10, 10, 10 in consecutive mode and 10, 10, 10, 20, 20, 30 in all-gaps mode.
\<close>

theorem Tgaps_gap_modes:
  assumes "2 \<le> length col"
  shows "(\<not> allGaps self \<longrightarrow>
            TgapsMetric_run self col = binned (spec_consecutive_gaps (np_sort col)) (bins self)) \<and>
         (allGaps self \<longrightarrow>
            TgapsMetric_run self col = binned (spec_all_gaps (np_sort col)) (bins self)) \<and>
         np_diff (np_sort [10, 20, 30, 40]) = [10, 10, 10] \<and>
         np_concatenate (allDiffs_loop (np_sort [10, 20, 30, 40]))
           = Inr [10, 10, 10, 20, 20, 30]"
proof -
  have len: "2 \<le> length (np_sort col)" using assms by (simp add: np_sort_def)
  have a: "np_diff (np_sort [10, 20, 30, 40]) = [10, 10, 10]"
    by (simp add: np_sort_def)
  have b: "np_concatenate (allDiffs_loop (np_sort [10, 20, 30, 40]))
           = Inr [10, 10, 10, 20, 20, 30]"
    by (simp add: np_sort_def allDiffs_loop_def np_concatenate_def np_roll_def upt_rec)
  show ?thesis
    using assms a b all_gaps_eq[OF len]
    by (simp add: TgapsMetric_run_def TgapsMetric_body_def Let_def binned_def np_diff_spec)
qed

lemma binned_default_bins:
  "binned (map real ns) Tgaps_default_bins
     = Inr (Hist (map (\<lambda>k. length (filter (\<lambda>n. k + 1 = 2 * n) ns)) [0..<118]))"
proof -
  have "map (\<lambda>k. length (filter (in_bin Tgaps_default_bins k) (map real ns))) [0..<118]
        = map (\<lambda>k. length (filter (\<lambda>n. k + 1 = 2 * n) ns)) [0..<118]"
    by (intro map_cong refl) (simp add: filter_map comp_def in_default_bin_nat)
  then show ?thesis
    by (simp add: binned_def np_histogram_def sorted_default_bins length_default_bins)
qed

lemma gaps_10_20_30_40:
  "spec_consecutive_gaps (np_sort [40, 10, 30, 20]) = map real [10, 10, 10]"
  "spec_all_gaps (np_sort [40, 10, 30, 20]) = map real [10, 10, 10, 20, 20, 30]"
  by (simp_all add: spec_consecutive_gaps_def spec_all_gaps_def spec_shifted_diffs_def
        np_sort_def upt_rec)

theorem Tgaps_gap_modes_witness:
  "2 \<le> length [40, 10, 30, 20 :: real] \<and>
   \<not> allGaps (GapsMetric_init default_badval False Tgaps_default_bins) \<and>
   TgapsMetric_run (GapsMetric_init default_badval False Tgaps_default_bins) [40, 10, 30, 20]
     = Inr (Hist (map (\<lambda>k. if k = 19 then 3 else 0) [0..<118])) \<and>
   allGaps (GapsMetric_init default_badval True Tgaps_default_bins) \<and>
   TgapsMetric_run (GapsMetric_init default_badval True Tgaps_default_bins) [40, 10, 30, 20]
     = Inr (Hist (map (\<lambda>k. if k = 19 then 3 else if k = 39 then 2 else if k = 59 then 1 else 0)
                    [0..<118]))"
proof -
  have f: "allGaps (GapsMetric_init default_badval ag Tgaps_default_bins) = ag"
          "bins (GapsMetric_init default_badval ag Tgaps_default_bins) = Tgaps_default_bins" for ag
    by (simp_all add: GapsMetric_init_def BaseMetric.extend_def GapsMetric.fields_def)
  have c: "map (\<lambda>k. length (filter (\<lambda>n. k + 1 = 2 * n) [10, 10, 10])) [0..<118]
           = map (\<lambda>k. if k = 19 then 3 else 0) [0..<118]"
    by (intro map_cong refl) auto
  have d: "map (\<lambda>k. length (filter (\<lambda>n. k + 1 = 2 * n) [10, 10, 10, 20, 20, 30])) [0..<118]
           = map (\<lambda>k. if k = 19 then 3 else if k = 39 then 2 else if k = 59 then 1 else 0)
               [0..<118]"
    by (intro map_cong refl) auto
  show ?thesis
    using Tgaps_gap_modes [of "[40, 10, 30, 20]"
            "GapsMetric_init default_badval False Tgaps_default_bins"]
          Tgaps_gap_modes [of "[40, 10, 30, 20]"
            "GapsMetric_init default_badval True Tgaps_default_bins"]
    by (simp only: f gaps_10_20_30_40 binned_default_bins c d) simp
qed

text \<open>
  Claim C7. For every slice with fewer than 2 rows, \<^verbatim>\<open>TgapsMetric.run\<close> and
  \<^verbatim>\<open>NightgapsMetric.run\<close> return the sentinel, without computing gaps. On a larger slice
  \<^verbatim>\<open>NightgapsMetric.run\<close> is the gap computation of \<^verbatim>\<open>TgapsMetric.run\<close> applied to the
  unique, sorted values of the night column.
\<close>

theorem gaps_short_slice:
  "(length col < 2 \<longrightarrow>
      TgapsMetric_run self col = Inr (Scalar (Fin (badval self))) \<and>
      NightgapsMetric_run self col = Inr (Scalar (Fin (badval self)))) \<and>
   (\<not> length col < 2 \<longrightarrow>
      TgapsMetric_run self col = TgapsMetric_body self col \<and>
      NightgapsMetric_run self col = TgapsMetric_body self (np_unique col))"
  by (simp add: TgapsMetric_run_def NightgapsMetric_run_def TgapsMetric_body_def
        allDiffs_loop_def sort_np_unique Let_def)

theorem gaps_short_slice_witness:
  "length [5 :: real] < 2 \<and>
   NightgapsMetric_run (GapsMetric_init default_badval False Nightgaps_default_bins) [5]
     = Inr (Scalar (Fin (- 666))) \<and>
   \<not> length [3, 1, 1 :: real] < 2 \<and>
   NightgapsMetric_run (GapsMetric_init default_badval False Nightgaps_default_bins) [3, 1, 1]
     = Inr (Hist [0, 0, 1, 0, 0, 0, 0, 0, 0])"
proof -
  have "TgapsMetric_body (GapsMetric_init default_badval False Nightgaps_default_bins) [1, 3]
         = Inr (Hist [0, 0, 1, 0, 0, 0, 0, 0, 0])"
    by (simp add: TgapsMetric_body_def np_sort_def GapsMetric_init_def BaseMetric.extend_def
          GapsMetric.fields_def BaseMetric_init_def np_histogram_def
          Nightgaps_default_bins_eval in_bin_def upt_rec)
  then show ?thesis
    using gaps_short_slice [of "[5]" "GapsMetric_init default_badval False Nightgaps_default_bins"]
          gaps_short_slice [of "[3, 1, 1]" "GapsMetric_init default_badval False Nightgaps_default_bins"]
    by (simp add: np_unique_def GapsMetric_init_def BaseMetric.extend_def GapsMetric.fields_def
          BaseMetric_init_def default_badval_def)
qed

section \<open>Angle rotation\<close>


lemma map_fst_insort_key:
  "map fst (insort_key fst p ps) = insort (fst p) (map fst ps)"
  by (induction ps) simp_all

lemma map_fst_sort_key: "map fst (sort_key fst ps) = sort (map fst ps)"
  by (induction ps) (simp_all add: map_fst_insort_key)

lemma take_idx_argsort: "take_idx xs (np_argsort xs) = sort xs"
proof -
  let ?ps = "zip xs [0..<length xs]"
  have "\<forall>p\<in>set (sort_key fst ?ps). xs ! snd p = fst p"
    by (auto simp: set_zip)
  then have "map (\<lambda>p. xs ! snd p) (sort_key fst ?ps) = map fst (sort_key fst ?ps)"
    by (intro map_cong refl) simp
  then show ?thesis
    by (simp add: take_idx_def np_argsort_def comp_def map_fst_sort_key)
qed

lemma twopi_pos: "0 < twopi"
  by (simp add: twopi_def)

lemma py_mod_range:
  assumes "0 < y"
  shows "0 \<le> py_mod x y \<and> py_mod x y < y"
proof -
  have "py_mod x y = y * (x / y - of_int \<lfloor>x / y\<rfloor>)"
    using assms by (simp add: py_mod_def algebra_simps)
  moreover have "0 \<le> x / y - of_int \<lfloor>x / y\<rfloor>" "x / y - of_int \<lfloor>x / y\<rfloor> < 1"
    by linarith+
  ultimately show ?thesis
    using assms by (simp add: mult_less_cancel_left2)
qed

lemma py_mod_small: "0 \<le> x \<Longrightarrow> x < y \<Longrightarrow> py_mod x y = x"
  by (simp add: py_mod_def floor_eq_iff[THEN iffD2])

lemma py_mod_neg: "- y \<le> x \<Longrightarrow> x < 0 \<Longrightarrow> py_mod x y = x + y"
proof -
  assume a: "- y \<le> x" "x < 0"
  then have "0 < y" by linarith
  with a have "\<lfloor>x / y\<rfloor> = - 1"
    by (simp add: floor_eq_iff field_simps)
  then show ?thesis by (simp add: py_mod_def)
qed

lemma last_filter_upt:
  assumes "j < n" "P j"
  shows "last (filter P [0..<n]) < n \<and> P (last (filter P [0..<n])) \<and> j \<le> last (filter P [0..<n])"
  using assms
proof (induction n)
  case 0
  then show ?case by simp
next
  case (Suc n)
  show ?case
  proof (cases "P n")
    case True
    then show ?thesis using Suc.prems by simp
  next
    case False
    then have "j < n" using Suc.prems by (metis less_Suc_eq)
    then show ?thesis using Suc.IH Suc.prems False by simp
  qed
qed


lemma np_max_Max: "xs \<noteq> [] \<Longrightarrow> np_max xs = Inr (Max (set xs))"
  by (cases xs) (simp_all flip: Max.set_eq_fold)

lemma np_min_Min: "xs \<noteq> [] \<Longrightarrow> np_min xs = Inr (Min (set xs))"
  by (cases xs) (simp_all flip: Min.set_eq_fold)

lemma length_gap_sequence: "s \<noteq> [] \<Longrightarrow> length (gap_sequence s) = length s"
  by (cases s) (simp_all add: gap_sequence_def length_np_diff)

lemma last_argmax_props:
  assumes "ds \<noteq> []"
  shows "last_argmax ds < length ds"
    and "ds ! last_argmax ds = Max (set ds)"
    and "\<And>j. j < length ds \<Longrightarrow> ds ! j = Max (set ds) \<Longrightarrow> j \<le> last_argmax ds"
proof -
  have "Max (set ds) \<in> set ds" using assms by simp
  then obtain j where j: "j < length ds" "ds ! j = Max (set ds)"
    by (auto simp: in_set_conv_nth)
  from last_filter_upt[of j "length ds" "\<lambda>i. ds ! i = Max (set ds)", OF j]
  show "last_argmax ds < length ds" "ds ! last_argmax ds = Max (set ds)"
    by (simp_all add: last_argmax_def)
  fix i assume "i < length ds" "ds ! i = Max (set ds)"
  from last_filter_upt[of i "length ds" "\<lambda>i. ds ! i = Max (set ds)", OF this]
  show "i \<le> last_argmax ds" by (simp add: last_argmax_def)
qed

lemma maxdiff_singleton:
  assumes "ds \<noteq> []"
  shows "(let maxdiff = np_where (\<lambda>d. d = Max (set ds)) ds
          in if length maxdiff > 1 then [last maxdiff] else maxdiff) = [last_argmax ds]"
proof -
  let ?md = "np_where (\<lambda>d. d = Max (set ds)) ds"
  have md: "?md = filter (\<lambda>i. ds ! i = Max (set ds)) [0..<length ds]"
    by (simp add: np_where_def)
  have "Max (set ds) \<in> set ds" using assms by simp
  then obtain j where j: "j < length ds" "ds ! j = Max (set ds)"
    by (auto simp: in_set_conv_nth)
  then have "j \<in> set ?md" by (simp add: md)
  then have ne: "?md \<noteq> []" by auto
  have "length ?md = 1 \<Longrightarrow> ?md = [last ?md]"
    by (cases ?md) simp_all
  moreover have "length ?md > 1 \<or> length ?md = 1"
    using ne by (cases ?md) auto
  ultimately show ?thesis
    unfolding Let_def last_argmax_def md[symmetric] by auto
qed

lemma rotateAngles_eq:
  assumes "angles \<noteq> []"
  shows "rotateAngles angles =
     (let s = sort angles;
          k = last_argmax (gap_sequence s);
          rotation = s ! ((k + 1) mod length angles)
      in if twopi - last s + hd s < 0 then Inl ValueError
         else Inr (rotation, map (\<lambda>a. py_mod (a - rotation) twopi) angles))"
proof -
  let ?s = "sort angles"
  let ?g = "gap_sequence ?s"
  let ?k = "last_argmax ?g"
  have s: "?s \<noteq> []" using assms by (metis length_sort length_0_conv)
  have g: "?g \<noteq> []" by (simp add: gap_sequence_def)
  have len: "length ?g = length angles" using s by (simp add: length_gap_sequence)
  have k: "?k < length angles" using last_argmax_props(1)[OF g] len by simp
  have m1: "Suc (length angles - Suc 0) mod length angles = 0"
    using assms by (cases angles) simp_all
  have m2: "?k \<noteq> length angles - Suc 0 \<Longrightarrow> Suc ?k mod length angles = Suc ?k"
    using k by simp
  show ?thesis
    using s maxdiff_singleton[OF g] m1 m2
    by (simp add: rotateAngles_def take_idx_argsort Let_def np_max_Max[OF g]
          gap_sequence_def[symmetric])
qed


lemma sorted_le_last: "sorted s \<Longrightarrow> x \<in> set s \<Longrightarrow> x \<le> last s"
proof -
  assume s: "sorted s" and x: "x \<in> set s"
  then obtain i where i: "i < length s" "x = s ! i" by (auto simp: in_set_conv_nth)
  then have ne: "s \<noteq> []" by auto
  have "s ! i \<le> s ! (length s - 1)"
    using s i by (intro sorted_nth_mono) auto
  then show ?thesis using i ne by (simp add: last_conv_nth)
qed

lemma sorted_hd_le: "sorted s \<Longrightarrow> x \<in> set s \<Longrightarrow> hd s \<le> x"
  by (cases s) auto

lemma np_diff_elem:
  assumes "sorted s" "d \<in> set (np_diff s)"
  shows "\<exists>a b. a \<in> set s \<and> b \<in> set s \<and> d = b - a \<and> a \<le> b \<and>
               (\<forall>c\<in>set s. \<not> (a < c \<and> c < b))"
proof -
  from assms(2) obtain j where j: "j < length s - 1" "d = np_diff s ! j"
    by (auto simp: in_set_conv_nth length_np_diff)
  then have j1: "j + 1 < length s" by simp
  have d: "d = s ! (j + 1) - s ! j" using j np_diff_nth[OF j1] by simp
  have le: "s ! j \<le> s ! (j + 1)" using assms(1) j1 by (simp add: sorted_nth_mono)
  have "\<not> (s ! j < c \<and> c < s ! (j + 1))" if "c \<in> set s" for c
  proof -
    from that obtain i where i: "i < length s" "c = s ! i" by (auto simp: in_set_conv_nth)
    show ?thesis
    proof (cases "i \<le> j")
      case True
      then have "c \<le> s ! j" using assms(1) i j1 by (simp add: sorted_nth_mono)
      then show ?thesis by simp
    next
      case False
      then have "j + 1 \<le> i" by simp
      then have "s ! (j + 1) \<le> c" using assms(1) i by (simp add: sorted_nth_mono)
      then show ?thesis by simp
    qed
  qed
  then show ?thesis using d le j1 by (metis nth_mem Suc_eq_plus1 Suc_lessD)
qed

lemma np_diff_adjacent:
  assumes "sorted s" "a \<in> set s" "b \<in> set s" "a < b" "\<forall>c\<in>set s. \<not> (a < c \<and> c < b)"
  shows "b - a \<in> set (np_diff s)"
  using assms
proof (induction s rule: np_diff.induct)
  case (1 x y zs)
  have srt: "sorted (y # zs)" using "1.prems"(1) by simp
  have nb: "\<forall>c\<in>set (y # zs). \<not> (a < c \<and> c < b)" using "1.prems"(5) by simp
  have xle: "\<forall>c\<in>set (y # zs). x \<le> c" using "1.prems"(1) by simp
  have yle: "\<forall>c\<in>set (y # zs). y \<le> c" using srt by auto
  have b_in: "b \<in> set (y # zs)"
  proof (rule ccontr)
    assume "b \<notin> set (y # zs)"
    then have "b = x" using "1.prems"(3) by simp
    moreover have "x \<le> a" using "1.prems"(2) xle by auto
    ultimately show False using "1.prems"(4) by simp
  qed
  show ?case
  proof (cases "a \<in> set (y # zs)")
    case True
    then have "b - a \<in> set (np_diff (y # zs))"
      using "1.IH" srt b_in "1.prems"(4) nb by blast
    then show ?thesis by simp
  next
    case False
    then have ax: "a = x" using "1.prems"(2) by simp
    have "x \<le> y" using xle by simp
    moreover have "y \<noteq> x" using False ax by auto
    ultimately have "a < y" using ax by simp
    moreover have "y \<le> b" using yle b_in by blast
    moreover have "\<not> (a < y \<and> y < b)" using nb by simp
    ultimately have "y = b" by simp
    then show ?thesis using ax by simp
  qed
qed simp_all

lemma hd_sort_Min: "xs \<noteq> [] \<Longrightarrow> hd (sort xs) = Min (set xs)"
proof -
  assume ne: "xs \<noteq> []"
  then have s: "sort xs \<noteq> []" by (metis length_sort length_0_conv)
  have "Min (set xs) = hd (sort xs)"
  proof (rule Min_eqI)
    show "finite (set xs)" by simp
    show "hd (sort xs) \<in> set xs" using s by (metis hd_in_set set_sort)
    fix y assume "y \<in> set xs"
    then show "hd (sort xs) \<le> y" using sorted_hd_le[of "sort xs" y] by simp
  qed
  then show ?thesis by simp
qed

lemma last_sort_Max: "xs \<noteq> [] \<Longrightarrow> last (sort xs) = Max (set xs)"
proof -
  assume ne: "xs \<noteq> []"
  then have s: "sort xs \<noteq> []" by (metis length_sort length_0_conv)
  have "Max (set xs) = last (sort xs)"
  proof (rule Max_eqI)
    show "finite (set xs)" by simp
    show "last (sort xs) \<in> set xs" using s by (metis last_in_set set_sort)
    fix y assume "y \<in> set xs"
    then show "y \<le> last (sort xs)" using sorted_le_last[of "sort xs" y] by simp
  qed
  then show ?thesis by simp
qed

lemma rotateAngles_isl:
  assumes "angles \<noteq> []"
  shows "isl (rotateAngles angles) \<longleftrightarrow> wrap_gap_negative angles"
    and "wrap_gap_negative angles \<Longrightarrow> rotateAngles angles = Inl ValueError"
    and "\<not> wrap_gap_negative angles \<Longrightarrow>
           \<exists>r. rotateAngles angles = Inr (r, map (\<lambda>a. py_mod (a - r) twopi) angles)"
  using assms
  by (simp_all add: rotateAngles_eq Let_def wrap_gap_negative_def hd_sort_Min last_sort_Max)

text \<open>
  Claim C5 says that \<^verbatim>\<open>_rotateAngles\<close> raises if and only if the wraparound gap is
  negative and for no other input condition. On the empty input there is no wraparound gap
  to be negative, and reading the last sorted angle raises IndexError.
\<close>

theorem rotateAngles_empty_raises:
  "isl (rotateAngles []) \<and> \<not> wrap_gap_negative []"
  by (simp add: rotateAngles_def wrap_gap_negative_def np_argsort_def take_idx_def)

text \<open>
  Claim C5, amended. For every non-empty input, \<^verbatim>\<open>_rotateAngles\<close>, and with it
  \<^verbatim>\<open>RmsAngleMetric.run\<close> and \<^verbatim>\<open>FullRangeAngleMetric.run\<close>, raises if and only if the
  wraparound gap, \<open>2 pi\<close> minus the largest angle plus the smallest angle, is negative, and
  the error is then the ValueError of the radians check. On the empty input
  \<^verbatim>\<open>_rotateAngles\<close> raises IndexError.
\<close>

theorem rotateAngles_raises_iff:
  "(angles \<noteq> [] \<longrightarrow>
      (isl (rotateAngles angles) \<longleftrightarrow> wrap_gap_negative angles) \<and>
      (isl (RmsAngleMetric_run self angles) \<longleftrightarrow> wrap_gap_negative angles) \<and>
      (isl (FullRangeAngleMetric_run self angles) \<longleftrightarrow> wrap_gap_negative angles) \<and>
      (wrap_gap_negative angles \<longrightarrow> rotateAngles angles = Inl ValueError)) \<and>
   rotateAngles [] = Inl IndexError"
proof -
  have e: "rotateAngles [] = Inl IndexError"
    by (simp add: rotateAngles_def np_argsort_def take_idx_def)
  have "(isl (rotateAngles angles) \<longleftrightarrow> wrap_gap_negative angles) \<and>
      (isl (RmsAngleMetric_run self angles) \<longleftrightarrow> wrap_gap_negative angles) \<and>
      (isl (FullRangeAngleMetric_run self angles) \<longleftrightarrow> wrap_gap_negative angles) \<and>
      (wrap_gap_negative angles \<longrightarrow> rotateAngles angles = Inl ValueError)"
    if ne: "angles \<noteq> []"
  proof (cases "wrap_gap_negative angles")
    case True
    then show ?thesis
      using rotateAngles_isl(2)[OF ne]
      by (simp add: RmsAngleMetric_run_def FullRangeAngleMetric_run_def)
  next
    case False
    then obtain r where r: "rotateAngles angles = Inr (r, map (\<lambda>a. py_mod (a - r) twopi) angles)"
      using rotateAngles_isl(3)[OF ne] by blast
    have m: "map (\<lambda>a. py_mod (a - r) twopi) angles \<noteq> []" using ne by simp
    show ?thesis
      using False r np_max_Max[OF m] np_min_Min[OF m]
      by (simp add: RmsAngleMetric_run_def FullRangeAngleMetric_run_def)
  qed
  then show ?thesis using e by blast
qed

theorem rotateAngles_raises_iff_witness:
  "[10, 350 :: real] \<noteq> [] \<and> wrap_gap_negative [10, 350] \<and>
   rotateAngles [10, 350] = Inl ValueError \<and>
   isl (RmsAngleMetric_run (BaseMetric_init default_badval) [10, 350]) \<and>
   [1, 3 :: real] \<noteq> [] \<and> \<not> wrap_gap_negative [1, 3] \<and>
   \<not> isl (FullRangeAngleMetric_run (BaseMetric_init default_badval) [1, 3])"
proof -
  have a: "wrap_gap_negative [10, 350]"
    using pi_less_4 by (simp add: wrap_gap_negative_def twopi_def)
  have "1 \<le> pi" using pi_ge_two by linarith
  then have b: "\<not> wrap_gap_negative [1, 3]"
    by (simp add: wrap_gap_negative_def twopi_def not_less)
  show ?thesis
    using a b rotateAngles_raises_iff [of "[10, 350]" "BaseMetric_init default_badval"]
      rotateAngles_raises_iff [of "[1, 3]" "BaseMetric_init default_badval"]
    by simp
qed

lemma gap_sequence_nth:
  assumes "s \<noteq> []"
  shows "j + 1 < length s \<Longrightarrow> gap_sequence s ! j = s ! (j + 1) - s ! j"
    and "gap_sequence s ! (length s - 1) = twopi - last s + hd s"
proof -
  show "j + 1 < length s \<Longrightarrow> gap_sequence s ! j = s ! (j + 1) - s ! j"
  proof -
    assume j: "j + 1 < length s"
    then have "j < length (np_diff s)" by (simp add: length_np_diff)
    then show ?thesis using j by (simp add: gap_sequence_def nth_append np_diff_nth)
  qed
  show "gap_sequence s ! (length s - 1) = twopi - last s + hd s"
    by (simp add: gap_sequence_def nth_append length_np_diff)
qed

lemma rotated_gaps:
  assumes ne: "angles \<noteq> []" and rng: "\<forall>a\<in>set angles. 0 \<le> a \<and> a < twopi"
  defines "s \<equiv> sort angles"
  defines "k \<equiv> last_argmax (gap_sequence s)"
  defines "r \<equiv> s ! ((k + 1) mod length angles)"
  defines "rot \<equiv> map (\<lambda>a. py_mod (a - r) twopi) angles"
  defines "M \<equiv> Max (set (gap_sequence s))"
  shows "hd (sort rot) = 0"
    and "twopi - last (sort rot) + hd (sort rot) = M"
    and "\<forall>d\<in>set (np_diff (sort rot)). d \<le> M"
proof -
  let ?n = "length angles"
  let ?g = "gap_sequence s"
  have sne: "s \<noteq> []" using ne unfolding s_def by (metis length_sort length_0_conv)
  have len: "length s = ?n" by (simp add: s_def)
  have npos: "0 < ?n" using ne by simp
  have srt: "sorted s" by (simp add: s_def)
  have sets: "set s = set angles" by (simp add: s_def)
  have gne: "?g \<noteq> []" by (simp add: gap_sequence_def)
  have glen: "length ?g = ?n" using sne len by (simp add: length_gap_sequence)
  have k: "k < ?n" using last_argmax_props(1)[OF gne] glen by (simp add: k_def)
  have gk: "?g ! k = M" using last_argmax_props(2)[OF gne] by (simp add: k_def M_def)
  have gle: "d \<le> M" if "d \<in> set ?g" for d
    using that by (simp add: M_def)
  have hd_in: "hd s \<in> set angles" using sne sets by (metis hd_in_set)
  have last_in: "last s \<in> set angles" using sne sets by (metis last_in_set)
  have hd_le: "hd s \<le> a" if "a \<in> set angles" for a
    using that srt sets sorted_hd_le by blast
  have le_last: "a \<le> last s" if "a \<in> set angles" for a
    using that srt sets sorted_le_last by blast
  let ?w = "twopi - last s + hd s"
  have w_in: "?w \<in> set ?g" by (simp add: gap_sequence_def)
  have w_pos: "0 < ?w" using rng hd_in last_in by (smt (verit))
  have M_pos: "0 < M" using gle[OF w_in] w_pos by linarith
  have diff_sub: "d \<in> set ?g" if "d \<in> set (np_diff s)" for d
    using that by (simp add: gap_sequence_def)
  have r_in: "r \<in> set angles"
  proof -
    have "(k + 1) mod ?n < length s" using npos len by simp
    then show ?thesis unfolding r_def using sets nth_mem by blast
  qed
  have r_rng: "0 \<le> r" "r < twopi" using rng r_in by auto
  define phi where "phi a = py_mod (a - r) twopi" for a
  have phi_hi: "phi a = a - r" if "a \<in> set angles" "r \<le> a" for a
  proof -
    have "0 \<le> a - r" "a - r < twopi" using that rng r_rng by (auto simp: smt_arith_simplify)
    then show ?thesis unfolding phi_def by (rule py_mod_small)
  qed
  have phi_lo: "phi a = a - r + twopi" if "a \<in> set angles" "a < r" for a
  proof -
    have "0 \<le> a" using that rng by auto
    then have "- twopi \<le> a - r" "a - r < 0" using that r_rng by linarith+
    then show ?thesis unfolding phi_def by (rule py_mod_neg)
  qed
  have rot_set: "set rot = phi ` set angles" by (auto simp: rot_def phi_def)
  have rne: "rot \<noteq> []" using ne by (simp add: rot_def)
  have rot_nonneg: "0 \<le> x" if "x \<in> set rot" for x
    using that py_mod_range[OF twopi_pos] by (auto simp: rot_def)
  have zero_in: "0 \<in> set rot"
  proof -
    have "phi r = 0" using phi_hi[OF r_in] by simp
    then show ?thesis using r_in rot_set by force
  qed
  have "Min (set rot) = 0"
    by (rule Min_eqI) (use zero_in rot_nonneg in auto)
  then show hd0: "hd (sort rot) = 0" using rne by (simp add: hd_sort_Min)

  text \<open>the largest rotated angle\<close>
  have maxrot: "Max (set rot) = twopi - M"
  proof (cases "k + 1 = ?n")
    case True
    then have r0: "r = hd s" using sne npos by (simp add: r_def hd_conv_nth)
    have "?g ! (length s - 1) = ?w" by (rule gap_sequence_nth(2)[OF sne])
    moreover have "length s - 1 = k" using True len by simp
    ultimately have M: "M = ?w" using gk by simp
    show ?thesis
    proof (rule Max_eqI)
      show "finite (set rot)" by simp
      show "twopi - M \<in> set rot"
      proof -
        have "phi (last s) = last s - r" using phi_hi[OF last_in] hd_le[OF last_in] r0 by simp
        then have "phi (last s) = twopi - M" using M r0 by simp
        then show ?thesis using last_in rot_set by force
      qed
      fix y assume "y \<in> set rot"
      then obtain a where a: "a \<in> set angles" "y = phi a" using rot_set by auto
      then have "y = a - r" using phi_hi[OF a(1)] hd_le[OF a(1)] r0 by simp
      then show "y \<le> twopi - M" using M r0 le_last[OF a(1)] by simp
    qed
  next
    case False
    then have k1: "k + 1 < ?n" using k by simp
    then have r1: "r = s ! (k + 1)" by (simp add: r_def)
    define p where "p = s ! k"
    have p_in: "p \<in> set angles" using k len sets nth_mem unfolding p_def by metis
    have "?g ! k = s ! (k + 1) - s ! k"
      using gap_sequence_nth(1)[OF sne, of k] k1 len by simp
    then have M: "M = r - p" using gk r1 p_def by simp
    then have p_lt: "p < r" using M_pos by simp
    show ?thesis
    proof (rule Max_eqI)
      show "finite (set rot)" by simp
      show "twopi - M \<in> set rot"
      proof -
        have "phi p = p - r + twopi" using phi_lo[OF p_in p_lt] .
        then have "phi p = twopi - M" using M by simp
        then show ?thesis using p_in rot_set by force
      qed
      fix y assume "y \<in> set rot"
      then obtain a where a: "a \<in> set angles" "y = phi a" using rot_set by auto
      show "y \<le> twopi - M"
      proof (cases "r \<le> a")
        case True
        then have "y = a - r" using a phi_hi by simp
        moreover have "a < twopi" "0 \<le> p" using rng a(1) p_in by auto
        ultimately show ?thesis using M by simp
      next
        case False
        then have lt: "a < r" by simp
        then have y: "y = a - r + twopi" using a phi_lo by simp
        from a(1) obtain i where i: "i < length s" "a = s ! i"
          using sets by (metis in_set_conv_nth)
        have "i \<le> k"
        proof (rule ccontr)
          assume "\<not> i \<le> k"
          then have "k + 1 \<le> i" by simp
          then have "s ! (k + 1) \<le> s ! i" using srt i(1) by (simp add: sorted_nth_mono)
          then show False using lt r1 i(2) by simp
        qed
        then have "a \<le> p" using srt k len i by (simp add: p_def sorted_nth_mono)
        then show ?thesis using y M by simp
      qed
    qed
  qed
  have lastrot: "last (sort rot) = Max (set rot)" using rne by (rule last_sort_Max)
  show "twopi - last (sort rot) + hd (sort rot) = M"
    using hd0 lastrot maxrot by simp

  text \<open>every consecutive gap of the rotated angles\<close>
  show "\<forall>d\<in>set (np_diff (sort rot)). d \<le> M"
  proof
    fix d assume "d \<in> set (np_diff (sort rot))"
    then obtain x y where xy: "x \<in> set rot" "y \<in> set rot" "d = y - x" "x \<le> y"
        and nb: "\<forall>c\<in>set rot. \<not> (x < c \<and> c < y)"
      using np_diff_elem[of "sort rot" d] by auto
    from xy obtain a b where ab: "a \<in> set angles" "x = phi a" "b \<in> set angles" "y = phi b"
      using rot_set by auto
    have a_rng: "0 \<le> a" "a < twopi" and b_rng: "0 \<le> b" "b < twopi" using rng ab by auto
    have nbA: "\<not> (x < phi c \<and> phi c < y)" if "c \<in> set angles" for c
      using nb that rot_set by auto
    show "d \<le> M"
    proof (cases "x = y")
      case True
      then show ?thesis using xy(3) M_pos by simp
    next
      case False
      then have xlt: "x < y" using xy(4) by simp
      consider (hh) "r \<le> a" "r \<le> b" | (ll) "a < r" "b < r"
        | (hl) "r \<le> a" "b < r" | (lh) "a < r" "r \<le> b" by linarith
      then show ?thesis
      proof cases
        case hh
        have x: "x = a - r" and y: "y = b - r" using hh ab phi_hi by auto
        have "\<not> (a < c \<and> c < b)" if c: "c \<in> set s" for c
        proof
          assume h: "a < c \<and> c < b"
          have cin: "c \<in> set angles" using c sets by simp
          have "phi c = c - r" using phi_hi[OF cin] h hh by simp
          then show False using nbA[OF cin] x y h by simp
        qed
        then have "b - a \<in> set (np_diff s)"
          using np_diff_adjacent[OF srt, of a b] ab sets xlt x y by simp
        then show ?thesis using gle diff_sub xy(3) x y by fastforce
      next
        case ll
        have x: "x = a - r + twopi" and y: "y = b - r + twopi" using ll ab phi_lo by auto
        have "\<not> (a < c \<and> c < b)" if c: "c \<in> set s" for c
        proof
          assume h: "a < c \<and> c < b"
          have cin: "c \<in> set angles" using c sets by simp
          have "phi c = c - r + twopi" using phi_lo[OF cin] h ll by simp
          then show False using nbA[OF cin] x y h by simp
        qed
        then have "b - a \<in> set (np_diff s)"
          using np_diff_adjacent[OF srt, of a b] ab sets xlt x y by simp
        then show ?thesis using gle diff_sub xy(3) x y by fastforce
      next
        case hl
        have x: "x = a - r" and y: "y = b - r + twopi" using hl ab phi_hi phi_lo by auto
        have a_last: "last s \<le> a"
        proof (rule ccontr)
          assume "\<not> last s \<le> a"
          then have h: "a < last s" by simp
          have "phi (last s) = last s - r" using phi_hi[OF last_in] h hl by simp
          moreover have "last s < twopi" using rng last_in by auto
          ultimately show False using nbA[OF last_in] x y h b_rng by simp
        qed
        have b_hd: "b \<le> hd s"
        proof (rule ccontr)
          assume "\<not> b \<le> hd s"
          then have h: "hd s < b" by simp
          have "phi (hd s) = hd s - r + twopi" using phi_lo[OF hd_in] h hl by simp
          moreover have "0 \<le> hd s" using rng hd_in by auto
          ultimately show False using nbA[OF hd_in] x y h a_rng by simp
        qed
        have "d \<le> ?w" using xy(3) x y a_last b_hd by simp
        then show ?thesis using gle[OF w_in] by linarith
      next
        case lh
        have x: "x = a - r + twopi" and y: "y = b - r" using lh ab phi_hi phi_lo by auto
        then show ?thesis using xlt a_rng b_rng by simp
      qed
    qed
  qed
qed

lemma rotateAngles_example:
  "rotateAngles [pi / 2, 3 * pi / 2, 0] = Inr (3 * pi / 2, [pi, 0, pi / 2])"
proof -
  let ?a = "[pi / 2, 3 * pi / 2, 0 :: real]"
  have srt: "sort ?a = [0, pi / 2, 3 * pi / 2]"
    using pi_gt_zero by (simp add: not_le)
  have gs: "gap_sequence [0, pi / 2, 3 * pi / 2] = [pi / 2, pi, pi / 2]"
    by (simp add: gap_sequence_def twopi_def)
  have mx: "Max (set [pi / 2, pi, pi / 2]) = pi"
    using pi_gt_zero by (simp add: max_def)
  have k: "last_argmax [pi / 2, pi, pi / 2] = 1"
    unfolding last_argmax_def mx using pi_gt_zero by (simp add: upt_rec)
  have w: "\<not> twopi - 3 * pi / 2 < 0"
    using pi_gt_zero by (simp add: twopi_def)
  have m1: "py_mod (pi / 2 - 3 * pi / 2) twopi = pi"
    using py_mod_neg[of twopi "pi / 2 - 3 * pi / 2"] pi_gt_zero by (simp add: twopi_def)
  have m2: "py_mod 0 twopi = 0"
    by (simp add: py_mod_def)
  have m3: "py_mod (- (3 * pi / 2)) twopi = pi / 2"
    using py_mod_neg[of twopi "- (3 * pi / 2)"] pi_gt_zero by (simp add: twopi_def)
  have "rotateAngles ?a =
     (let s = sort ?a;
          k = last_argmax (gap_sequence s);
          rotation = s ! ((k + 1) mod length ?a)
      in if twopi - last s + hd s < 0 then Inl ValueError
         else Inr (rotation, map (\<lambda>a. py_mod (a - rotation) twopi) ?a))"
    by (rule rotateAngles_eq) simp
  then show ?thesis
    unfolding Let_def srt gs k using w m1 m2 m3 by simp
qed

text \<open>
  Claim C4. For every non-empty input of angles in \<open>[0, 2 pi)\<close> on which
  \<^verbatim>\<open>_rotateAngles\<close> does not raise: every returned angle lies in \<open>[0, 2 pi)\<close>; the
  rotation offset is the sorted angle that follows, cyclically, the last position of the
  maximum of the gap sequence (the consecutive gaps of the sorted angles followed by the
  wraparound gap); the smallest rotated angle is 0, and every consecutive gap of the sorted
  rotated angles is at most their wraparound gap, which is the largest gap of the input.
\<close>

theorem rotateAngles_invariant:
  assumes "angles \<noteq> []"
    and "\<forall>a\<in>set angles. 0 \<le> a \<and> a < twopi"
    and "rotateAngles angles = Inr (rotation, rotated)"
  shows "(\<forall>x\<in>set rotated. 0 \<le> x \<and> x < twopi) \<and>
         (let gaps = gap_sequence (np_sort angles); k = last_argmax gaps
          in k < length angles \<and> gaps ! k = Max (set gaps) \<and>
             (\<forall>j<length angles. gaps ! j = Max (set gaps) \<longrightarrow> j \<le> k) \<and>
             rotation = np_sort angles ! ((k + 1) mod length angles)) \<and>
         hd (np_sort rotated) = 0 \<and>
         (\<forall>d\<in>set (np_diff (np_sort rotated)).
            d \<le> twopi - last (np_sort rotated) + hd (np_sort rotated)) \<and>
         twopi - last (np_sort rotated) + hd (np_sort rotated)
           = Max (set (gap_sequence (np_sort angles)))"
proof -
  let ?s = "sort angles"
  let ?g = "gap_sequence ?s"
  let ?k = "last_argmax ?g"
  let ?r = "?s ! ((?k + 1) mod length angles)"
  let ?rot = "map (\<lambda>a. py_mod (a - ?r) twopi) angles"
  have sne: "?s \<noteq> []" using assms(1) by (metis length_sort length_0_conv)
  have gne: "?g \<noteq> []" by (simp add: gap_sequence_def)
  have glen: "length ?g = length angles" using sne by (simp add: length_gap_sequence)
  from assms(3) have res: "rotation = ?r" "rotated = ?rot"
    using rotateAngles_eq[OF assms(1)] by (auto simp: Let_def split: if_splits)
  have 1: "\<forall>x\<in>set rotated. 0 \<le> x \<and> x < twopi"
    using py_mod_range[OF twopi_pos] by (auto simp: res(2))
  have 2: "?k < length angles" "?g ! ?k = Max (set ?g)"
    "\<forall>j<length angles. ?g ! j = Max (set ?g) \<longrightarrow> j \<le> ?k"
    using last_argmax_props[OF gne] glen by auto
  note rg = rotated_gaps[OF assms(1,2)]
  show ?thesis
    unfolding np_sort_def Let_def res(2)
    using 1 2 rg res by simp
qed


theorem rotateAngles_invariant_witness:
  "[pi / 2, 3 * pi / 2, 0] \<noteq> [] \<and>
   0 \<le> pi / 2 \<and> 3 * pi / 2 < twopi \<and>
   rotateAngles [pi / 2, 3 * pi / 2, 0] = Inr (3 * pi / 2, [pi, 0, pi / 2]) \<and>
   hd (np_sort [pi, 0, pi / 2]) = 0 \<and>
   twopi - last (np_sort [pi, 0, pi / 2]) + hd (np_sort [pi, 0, pi / 2])
     = Max (set (gap_sequence (np_sort [pi / 2, 3 * pi / 2, 0])))"
proof -
  have h1: "[pi / 2, 3 * pi / 2, 0] \<noteq> []" by simp
  have h2: "\<forall>a\<in>set [pi / 2, 3 * pi / 2, 0]. 0 \<le> a \<and> a < twopi"
    using pi_gt_zero by (simp add: twopi_def)
  have h3: "0 \<le> pi / 2" "3 * pi / 2 < twopi"
    using pi_gt_zero by (simp_all add: twopi_def)
  note inv = rotateAngles_invariant [OF h1 h2 rotateAngles_example]
  have c1: "hd (np_sort [pi, 0, pi / 2]) = 0"
    using inv by blast
  have c2: "twopi - last (np_sort [pi, 0, pi / 2]) + hd (np_sort [pi, 0, pi / 2])
     = Max (set (gap_sequence (np_sort [pi / 2, 3 * pi / 2, 0])))"
    using inv by blast
  show ?thesis
    using h1 h3 rotateAngles_example c1 c2 by blast
qed

section \<open>Mean angle\<close>

text \<open>
  The model of \<^verbatim>\<open>np.arctan2\<close> is the polar angle of the point: away from the origin
  it lies in \<open>(-pi, pi]\<close> and has the cosine and sine of the direction of \<open>(x, y)\<close>.
\<close>

lemma sqrt_one_plus_quot:
  assumes "x \<noteq> 0"
  shows "sqrt (1 + (y / x)\<^sup>2) = sqrt (x\<^sup>2 + y\<^sup>2) / \<bar>x\<bar>"
proof -
  have "1 + (y / x)\<^sup>2 = (x\<^sup>2 + y\<^sup>2) / x\<^sup>2"
    using assms by (simp add: field_simps power2_eq_square)
  then show ?thesis
    by (simp add: real_sqrt_divide)
qed

lemma np_arctan2_polar:
  assumes "x \<noteq> 0 \<or> y \<noteq> 0"
  shows "- pi < np_arctan2 y x \<and> np_arctan2 y x \<le> pi \<and>
         cos (np_arctan2 y x) = x / sqrt (x\<^sup>2 + y\<^sup>2) \<and>
         sin (np_arctan2 y x) = y / sqrt (x\<^sup>2 + y\<^sup>2)"
proof -
  have b: "- (pi / 2) < arctan (y / x)" "arctan (y / x) < pi / 2"
    using arctan_bounded[of "y / x"] by auto
  consider (pos) "0 < x" | (negp) "x < 0" "0 \<le> y" | (negn) "x < 0" "y < 0"
    | (zp) "x = 0" "0 < y" | (zn) "x = 0" "y < 0"
    using assms by linarith
  then show ?thesis
  proof cases
    case pos
    then have "cos (arctan (y / x)) = x / sqrt (x\<^sup>2 + y\<^sup>2)"
      "sin (arctan (y / x)) = y / sqrt (x\<^sup>2 + y\<^sup>2)"
      by (simp_all add: cos_arctan sin_arctan sqrt_one_plus_quot)
    then show ?thesis using pos b pi_gt_zero by (simp add: np_arctan2_def)
  next
    case negp
    then have "cos (arctan (y / x)) = - x / sqrt (x\<^sup>2 + y\<^sup>2)"
      "sin (arctan (y / x)) = - y / sqrt (x\<^sup>2 + y\<^sup>2)"
      by (simp_all add: cos_arctan sin_arctan sqrt_one_plus_quot)
    moreover have "arctan (y / x) \<le> 0"
      using negp by (simp add: arctan_le_zero_iff divide_nonneg_neg)
    ultimately show ?thesis using negp b pi_gt_zero by (simp add: np_arctan2_def)
  next
    case negn
    then have "cos (arctan (y / x)) = - x / sqrt (x\<^sup>2 + y\<^sup>2)"
      "sin (arctan (y / x)) = - y / sqrt (x\<^sup>2 + y\<^sup>2)"
      by (simp_all add: cos_arctan sin_arctan sqrt_one_plus_quot)
    moreover have "0 < arctan (y / x)"
      using negn by (simp add: arctan_less_zero_iff zero_less_arctan_iff divide_neg_neg)
    ultimately show ?thesis using negn b pi_gt_zero by (simp add: np_arctan2_def)
  next
    case zp
    then show ?thesis using pi_gt_zero by (simp add: np_arctan2_def)
  next
    case zn
    then show ?thesis
      by (simp add: np_arctan2_def) (use pi_gt_zero in linarith)
  qed
qed

text \<open>
  Claim C8. For every non-empty slice, \<^verbatim>\<open>MeanAngleMetric.run\<close> returns the angle
  \<open>arctan2\<close> of the mean sine and the mean cosine of the column, reduced modulo \<open>2 pi\<close>
  into \<open>[0, 2 pi)\<close>, except that it returns \<open>pi\<close> when the length of the mean unit
  vector, the square root of the sum of the squares of both means, is below 0.1.
\<close>

theorem MeanAngle_unit_vector_mean:
  assumes "col \<noteq> []"
  shows "let meanx = sum_list (map cos col) / real (length col);
             meany = sum_list (map sin col) / real (length col);
             angle = py_mod (np_arctan2 meany meanx) twopi
         in MeanAngleMetric_run self col =
              Inr (Scalar (Fin (if sqrt (meanx\<^sup>2 + meany\<^sup>2) < 0.1 then pi else angle))) \<and>
            0 \<le> angle \<and> angle < twopi"
  using assms py_mod_range[OF twopi_pos]
  by (simp add: MeanAngleMetric_run_def Let_def np_mean_def)

theorem MeanAngle_unit_vector_mean_witness:
  "[pi / 2, pi / 2] \<noteq> [] \<and>
   MeanAngleMetric_run (BaseMetric_init default_badval) [pi / 2, pi / 2]
     = Inr (Scalar (Fin (pi / 2))) \<and>
   [0, pi] \<noteq> [] \<and>
   MeanAngleMetric_run (BaseMetric_init default_badval) [0, pi] = Inr (Scalar (Fin pi))"
proof -
  have m: "py_mod (pi / 2) twopi = pi / 2"
    using pi_gt_zero by (intro py_mod_small) (simp_all add: twopi_def)
  show ?thesis
    using MeanAngle_unit_vector_mean [of "[pi / 2, pi / 2]" "BaseMetric_init default_badval"]
      MeanAngle_unit_vector_mean [of "[0, pi]" "BaseMetric_init default_badval"] m
    by (simp add: Let_def np_arctan2_def)
qed

end
